theory Spec2Isabelle
  imports Main
begin

section \<open>Route descriptors (protocols.py)\<close>

text \<open>
  \<^verbatim>\<open>RouteConfigDict\<close> is a typed dictionary. The four keys of
  \<^verbatim>\<open>RouteConfigDictBase\<close> are required; the keys added with \<^verbatim>\<open>total=False\<close> may be
  absent, which is \<open>None\<close> here (the key \<^verbatim>\<open>method\<close> is written \<open>method'\<close>).
  \<^verbatim>\<open>response_model\<close> is declared \<^verbatim>\<open>Any\<close> and read with \<^verbatim>\<open>.get\<close>, which gives
  Python's \<^verbatim>\<open>None\<close> for a missing key as well as for a stored \<^verbatim>\<open>None\<close>: both are
  \<open>None\<close> here. Values the code only passes on (schemas, dependency
  objects, dictionary values) are of the type parameter \<open>'v\<close>; a dictionary is an
  association list in insertion order.
\<close>

record 'v RouteConfigDict =
  path :: string
  method' :: string
  endpoint_name :: string
  response_model :: "'v option"
  dependencies :: "'v list option"
  tags :: "string list option"
  openapi_extra :: "(string \<times> 'v) list option"
  name :: "string option"
  summary :: "string option"
  description :: "string option"
  deprecated :: "bool option"
  include_in_schema :: "bool option"
  kwargs :: "(string \<times> 'v) list option"

text \<open>
  A class implementing \<^verbatim>\<open>ViewProtocol\<close>: what \<^verbatim>\<open>routes_config()\<close> returns on a new
  instance, and the attribute table that \<^verbatim>\<open>getattr\<close> consults (attribute name to the
  function stored under it).
\<close>

record ('f, 'v) viewset_class =
  routes_config :: "'v RouteConfigDict list"
  attrs :: "string \<rightharpoonup> 'f"

text \<open>
  An instance is identified by the number it was given at construction. Looking a
  function up on an instance gives a method bound to that instance.
\<close>

record ('f, 'v) viewset_instance =
  inst_id :: nat
  inst_class :: "('f, 'v) viewset_class"

datatype 'f bound_method = BoundMethod (self_id: nat) (func: 'f)

datatype py_error = AttributeError string

definition getattr :: "('f, 'v) viewset_instance \<Rightarrow> string \<Rightarrow> py_error + 'f bound_method" where
  "getattr obj attr =
     (case attrs (inst_class obj) attr of
        None \<Rightarrow> Inl (AttributeError attr)
      | Some f \<Rightarrow> Inr (BoundMethod (inst_id obj) f))"

text \<open>\<^verbatim>\<open>d.get(key, dflt)\<close> on a key that may be absent.\<close>

definition get_default :: "'a option \<Rightarrow> 'a \<Rightarrow> 'a" where
  "get_default field dflt = (case field of None \<Rightarrow> dflt | Some x \<Rightarrow> x)"

section \<open>The router (router.py)\<close>

text \<open>
  The keyword overrides \<^verbatim>\<open>**kwargs\<close> of \<^verbatim>\<open>register_viewset\<close> are, by its docstring, the
  additional keyword arguments passed to \<^verbatim>\<open>add_api_route\<close>: an optional
  \<^verbatim>\<open>dependencies\<close> list, which the method treats itself, and further named arguments.
  The names of the further arguments are of the type parameter \<open>'k\<close>, distinct by type
  from the seven names the call passes itself (a repeated keyword is a \<^verbatim>\<open>TypeError\<close> of
  the call in Python, and is not an input of this model).
\<close>

record ('k, 'v) keyword_overrides =
  kw_dependencies :: "'v list option"
  kw_rest :: "('k \<times> 'v) list"

text \<open>\<^verbatim>\<open>kwargs.pop("dependencies", [])\<close>: the value and the dictionary without the key.\<close>

definition pop_dependencies ::
  "('k, 'v) keyword_overrides \<Rightarrow> 'v list \<times> ('k, 'v) keyword_overrides" where
  "pop_dependencies kw =
     (get_default (kw_dependencies kw) [], kw\<lparr>kw_dependencies := None\<rparr>)"

text \<open>An entry of the route table: the arguments of one call of \<^verbatim>\<open>add_api_route\<close>.\<close>

record ('f, 'k, 'v) api_route =
  r_path :: string
  r_endpoint :: "'f bound_method"
  r_methods :: "string list"
  r_tags :: "string list option"
  r_response_model :: "'v option"
  r_openapi_extra :: "(string \<times> 'v) list option"
  r_dependencies :: "'v list"
  r_kwargs :: "('k \<times> 'v) list"

text \<open>
  The state the method works on: the router's route table (\<^verbatim>\<open>self.routes\<close>) and the
  number of viewset instances constructed so far, which numbers the next one.
\<close>

record ('f, 'k, 'v) state =
  routes :: "('f, 'k, 'v) api_route list"
  constructed :: nat

text \<open>
  Modelled from the spec: \<^verbatim>\<open>add_api_route\<close> is the host framework's add-route primitive,
  inherited by \<^verbatim>\<open>RestRouter\<close> from \<^verbatim>\<open>APIRouter\<close> and not part of the sources. By the
  spec (4.2) its side effect is a mutation of the router's route table, one entry for
  each call; the entry holds the arguments of the call.
\<close>

definition add_api_route ::
  "('f, 'k, 'v) state \<Rightarrow> ('f, 'k, 'v) api_route \<Rightarrow> ('f, 'k, 'v) state" where
  "add_api_route s r = s\<lparr>routes := routes s @ [r]\<rparr>"

text \<open>\<^verbatim>\<open>viewset_class()\<close>: the new instance and the state that has counted it.\<close>

definition construct ::
  "('f, 'k, 'v) state \<Rightarrow> ('f, 'v) viewset_class \<Rightarrow> ('f, 'v) viewset_instance \<times> ('f, 'k, 'v) state" where
  "construct s cls =
     (\<lparr>inst_id = constructed s, inst_class = cls\<rparr>, s\<lparr>constructed := Suc (constructed s)\<rparr>)"

text \<open>
  The loop of \<^verbatim>\<open>register_viewset\<close> over the descriptors, in their order. The keyword
  overrides are threaded through the iterations, since \<^verbatim>\<open>pop\<close> mutates them. A failing
  \<^verbatim>\<open>getattr\<close> leaves the loop with the error and the state reached so far.
\<close>

fun register_routes ::
  "('f, 'v) viewset_instance \<Rightarrow> string \<Rightarrow> string list option \<Rightarrow> 'v RouteConfigDict list \<Rightarrow>
   ('k, 'v) keyword_overrides \<Rightarrow> ('f, 'k, 'v) state \<Rightarrow> (py_error + unit) \<times> ('f, 'k, 'v) state" where
  "register_routes viewset prefix tags_arg [] kwargs_arg s = (Inr (), s)"
| "register_routes viewset prefix tags_arg (route_config # rest) kwargs_arg s =
     (case getattr viewset (endpoint_name route_config) of
        Inl e \<Rightarrow> (Inl e, s)
      | Inr endpoint \<Rightarrow>
          (let route_path = prefix @ path route_config;
               route_dependencies = get_default (dependencies route_config) [];
               (kwargs_dependencies, kwargs_left) = pop_dependencies kwargs_arg;
               all_dependencies = route_dependencies @ kwargs_dependencies
           in register_routes viewset prefix tags_arg rest kwargs_left
                (add_api_route s
                   \<lparr>r_path = route_path,
                    r_endpoint = endpoint,
                    r_methods = [method' route_config],
                    r_tags = tags_arg,
                    r_response_model = response_model route_config,
                    r_openapi_extra = openapi_extra route_config,
                    r_dependencies = all_dependencies,
                    r_kwargs = kw_rest kwargs_left\<rparr>)))"

definition register_viewset ::
  "('f, 'k, 'v) state \<Rightarrow> ('f, 'v) viewset_class \<Rightarrow> string \<Rightarrow> string list option \<Rightarrow>
   ('k, 'v) keyword_overrides \<Rightarrow> (py_error + unit) \<times> ('f, 'k, 'v) state" where
  "register_viewset s viewset_class prefix tags_arg kwargs_arg =
     (let (viewset, s1) = construct s viewset_class
      in register_routes viewset prefix tags_arg (routes_config (inst_class viewset)) kwargs_arg s1)"

text \<open>
  The entries one run of the loop appends, as a list: the loop without the state. It
  serves the proofs below (\<open>register_routes_state\<close> relates it to the loop).
\<close>

fun routes_for ::
  "('f, 'v) viewset_instance \<Rightarrow> string \<Rightarrow> string list option \<Rightarrow> 'v RouteConfigDict list \<Rightarrow>
   ('k, 'v) keyword_overrides \<Rightarrow> ('f, 'k, 'v) api_route list" where
  "routes_for viewset prefix tags_arg [] kwargs_arg = []"
| "routes_for viewset prefix tags_arg (route_config # rest) kwargs_arg =
     (case getattr viewset (endpoint_name route_config) of
        Inl e \<Rightarrow> []
      | Inr endpoint \<Rightarrow>
          \<lparr>r_path = prefix @ path route_config,
           r_endpoint = endpoint,
           r_methods = [method' route_config],
           r_tags = tags_arg,
           r_response_model = response_model route_config,
           r_openapi_extra = openapi_extra route_config,
           r_dependencies =
             get_default (dependencies route_config) [] @ fst (pop_dependencies kwargs_arg),
           r_kwargs = kw_rest (snd (pop_dependencies kwargs_arg))\<rparr>
          # routes_for viewset prefix tags_arg rest (snd (pop_dependencies kwargs_arg)))"

text \<open>The entries of the route table of \<open>s'\<close> that come after those of \<open>s\<close>.\<close>

definition added_routes ::
  "('f, 'k, 'v) state \<Rightarrow> ('f, 'k, 'v) state \<Rightarrow> ('f, 'k, 'v) api_route list" where
  "added_routes s s' = drop (length (routes s)) (routes s')"

text \<open>The fields of a descriptor that \<^verbatim>\<open>register_viewset\<close> reads.\<close>

definition read_fields ::
  "'v RouteConfigDict \<Rightarrow>
   string \<times> string \<times> string \<times> 'v option \<times> (string \<times> 'v) list option \<times> 'v list option" where
  "read_fields rc =
     (path rc, method' rc, endpoint_name rc, response_model rc, openapi_extra rc,
      dependencies rc)"

section \<open>Inputs of the examples\<close>

text \<open>A descriptor with the required keys only.\<close>

definition descriptor :: "string \<Rightarrow> string \<Rightarrow> string \<Rightarrow> string RouteConfigDict" where
  "descriptor p m e =
     \<lparr>path = p, method' = m, endpoint_name = e, response_model = None,
      dependencies = None, tags = None, openapi_extra = None, name = None,
      summary = None, description = None, deprecated = None,
      include_in_schema = None, kwargs = None\<rparr>"

text \<open>
  The viewset of the spec's example (8) and of \<^verbatim>\<open>tests/test_router.py\<close>: a \<^verbatim>\<open>GET\<close> and a
  \<^verbatim>\<open>POST\<close> descriptor on \<^verbatim>\<open>"/"\<close>, the second with an \<^verbatim>\<open>openapi_extra\<close>.
\<close>

definition mock_viewset_with_routes :: "(string, string) viewset_class" where
  "mock_viewset_with_routes =
     \<lparr>routes_config =
        [descriptor ''/'' ''GET'' ''list'',
         (descriptor ''/'' ''POST'' ''create'')
           \<lparr>openapi_extra := Some [(''requestBody'', ''schema'')]\<rparr>],
      attrs = [''list'' \<mapsto> ''list_fn'', ''create'' \<mapsto> ''create_fn'']\<rparr>"

text \<open>The same viewset with a third descriptor whose handler the class does not have.\<close>

definition viewset_with_missing_handler :: "(string, string) viewset_class" where
  "viewset_with_missing_handler =
     mock_viewset_with_routes
       \<lparr>routes_config :=
          routes_config mock_viewset_with_routes @ [descriptor ''/{id}'' ''DELETE'' ''destroy'']\<rparr>"

text \<open>The same viewset with descriptor-level tags, name and kwargs on its descriptors.\<close>

definition viewset_with_extra_fields :: "(string, string) viewset_class" where
  "viewset_with_extra_fields =
     mock_viewset_with_routes
       \<lparr>routes_config :=
          map (\<lambda>rc. rc\<lparr>tags := Some [''own''], name := Some ''n'', summary := Some ''s'',
                        description := Some ''d'', deprecated := Some True,
                        include_in_schema := Some False, kwargs := Some [(''k'', ''v'')]\<rparr>)
            (routes_config mock_viewset_with_routes)\<rparr>"

text \<open>\<^verbatim>\<open>RestRouter()\<close> before any registration, and a call without keyword overrides.\<close>

definition new_router :: "(string, string, string) state" where
  "new_router = \<lparr>routes = [], constructed = 0\<rparr>"

definition no_kwargs :: "(string, string) keyword_overrides" where
  "no_kwargs = \<lparr>kw_dependencies = None, kw_rest = []\<rparr>"

text \<open>A call with \<^verbatim>\<open>dependencies=[auth]\<close>.\<close>

definition kwargs_with_dependencies :: "(string, string) keyword_overrides" where
  "kwargs_with_dependencies = \<lparr>kw_dependencies = Some [''auth''], kw_rest = []\<rparr>"

section \<open>Dependency-injection helpers (deps.py)\<close>

text \<open>
  A parameter of a callable, as the host framework's injection reads it: its name, and
  whether it takes the current request or declares a nested dependency on a provider.
\<close>

datatype 'p param_kind = CurrentRequest | Depends 'p

record 'p parameter =
  param_name :: string
  param_kind :: "'p param_kind"

text \<open>
  Modelled from the spec: \<^verbatim>\<open>db_dep_injector\<close> of \<^verbatim>\<open>fastapi_rest_utils/deps.py\<close>, a module
  that is not among the sources (only its test \<^verbatim>\<open>tests/test_deps.py\<close> is). By the spec
  (4.4) it wraps a provider into a function whose parameter list accepts the current
  request and declares a nested dependency on the wrapped provider; the names of the
  parameters are those the test asks for. The model is the produced parameter list.
\<close>

definition db_dep_injector :: "'p \<Rightarrow> 'p parameter list" where
  "db_dep_injector session_dependency =
     [\<lparr>param_name = ''request'', param_kind = CurrentRequest\<rparr>,
      \<lparr>param_name = ''db'', param_kind = Depends session_dependency\<rparr>]"

text \<open>
  Modelled from the spec: \<^verbatim>\<open>auth_dep_injector\<close> of the same missing module
  \<^verbatim>\<open>fastapi_rest_utils/deps.py\<close>, with the user-resolution provider in the place of the
  session provider (spec 4.4, names from \<^verbatim>\<open>tests/test_deps.py\<close>).
\<close>

definition auth_dep_injector :: "'p \<Rightarrow> 'p parameter list" where
  "auth_dep_injector user_dependency =
     [\<lparr>param_name = ''request'', param_kind = CurrentRequest\<rparr>,
      \<lparr>param_name = ''user'', param_kind = Depends user_dependency\<rparr>]"

section \<open>The loop and the list of its entries\<close>

lemma get_default_simps [simp]:
  "get_default None d = d"
  "get_default (Some x) d = x"
  by (simp_all add: get_default_def)

lemma pop_dependencies_simps [simp]:
  "fst (pop_dependencies kw) = get_default (kw_dependencies kw) []"
  "kw_rest (snd (pop_dependencies kw)) = kw_rest kw"
  "kw_dependencies (snd (pop_dependencies kw)) = None"
  "snd (pop_dependencies (snd (pop_dependencies kw))) = snd (pop_dependencies kw)"
  by (simp_all add: pop_dependencies_def)

lemma register_routes_state:
  "snd (register_routes v p t rcs kw s) = s\<lparr>routes := routes s @ routes_for v p t rcs kw\<rparr>"
  by (induction rcs arbitrary: kw s)
     (auto simp: add_api_route_def Let_def case_prod_beta split: sum.splits)

lemma register_routes_outcome:
  "fst (register_routes v p t rcs kw s) =
     (case find (\<lambda>rc. attrs (inst_class v) (endpoint_name rc) = None) rcs of
        None \<Rightarrow> Inr ()
      | Some rc \<Rightarrow> Inl (AttributeError (endpoint_name rc)))"
  by (induction rcs arbitrary: kw s)
     (auto simp: getattr_def Let_def case_prod_beta split: sum.splits option.splits)

lemma routes_for_length:
  "length (routes_for v p t rcs kw) =
     length (takeWhile (\<lambda>rc. attrs (inst_class v) (endpoint_name rc) \<noteq> None) rcs)"
  by (induction rcs arbitrary: kw)
     (auto simp: getattr_def split: sum.splits option.splits)

lemma routes_for_length_all:
  "\<forall>rc\<in>set rcs. attrs (inst_class v) (endpoint_name rc) \<noteq> None \<Longrightarrow>
   length (routes_for v p t rcs kw) = length rcs"
  by (simp add: routes_for_length takeWhile_eq_all_conv [THEN iffD2])

lemma routes_for_nth:
  "i < length (routes_for v p t rcs kw) \<Longrightarrow>
   r_path (routes_for v p t rcs kw ! i) = p @ path (rcs ! i) \<and>
   getattr v (endpoint_name (rcs ! i)) = Inr (r_endpoint (routes_for v p t rcs kw ! i)) \<and>
   r_methods (routes_for v p t rcs kw ! i) = [method' (rcs ! i)] \<and>
   r_tags (routes_for v p t rcs kw ! i) = t \<and>
   r_response_model (routes_for v p t rcs kw ! i) = response_model (rcs ! i) \<and>
   r_openapi_extra (routes_for v p t rcs kw ! i) = openapi_extra (rcs ! i) \<and>
   r_kwargs (routes_for v p t rcs kw ! i) = kw_rest kw \<and>
   r_dependencies (routes_for v p t rcs kw ! i) =
     get_default (dependencies (rcs ! i)) [] @
     (if i = 0 then get_default (kw_dependencies kw) [] else [])"
proof (induction rcs arbitrary: i kw)
  case Nil
  then show ?case by simp
next
  case (Cons rc rcs)
  show ?case
  proof (cases "getattr v (endpoint_name rc)")
    case (Inl e)
    with Cons.prems show ?thesis by simp
  next
    case (Inr ep)
    show ?thesis
    proof (cases i)
      case 0
      with Inr show ?thesis by simp
    next
      case (Suc j)
      with Cons.prems Inr have "j < length (routes_for v p t rcs (snd (pop_dependencies kw)))"
        by simp
      from Cons.IH [OF this] Suc Inr show ?thesis
        by simp
    qed
  qed
qed

lemma routes_for_stops:
  "\<forall>x\<in>set pre. attrs (inst_class v) (endpoint_name x) \<noteq> None \<Longrightarrow>
   attrs (inst_class v) (endpoint_name rc) = None \<Longrightarrow>
   routes_for v p t (pre @ rc # post) kw = routes_for v p t pre kw"
  by (induction pre arbitrary: kw)
     (auto simp: getattr_def split: sum.splits option.splits)

lemma find_first_unresolved:
  "\<forall>x\<in>set pre. \<not> P x \<Longrightarrow> P rc \<Longrightarrow> find P (pre @ rc # post) = Some rc"
  by (induction pre) auto

lemma find_none_resolved:
  "\<forall>x\<in>set xs. \<not> P x \<Longrightarrow> find P xs = None"
  by (induction xs) auto

lemma register_routes_read_fields:
  "map read_fields rcs1 = map read_fields rcs2 \<Longrightarrow>
   inst_id v1 = inst_id v2 \<Longrightarrow> attrs (inst_class v1) = attrs (inst_class v2) \<Longrightarrow>
   register_routes v1 p t rcs1 kw s = register_routes v2 p t rcs2 kw s"
proof (induction rcs1 arbitrary: rcs2 kw s)
  case Nil
  then show ?case by simp
next
  case (Cons rc rcs1)
  then obtain rc' rcs2' where r: "rcs2 = rc' # rcs2'" by (cases rcs2) auto
  with Cons.prems have f: "read_fields rc = read_fields rc'"
    and m: "map read_fields rcs1 = map read_fields rcs2'" by simp_all
  from f have e: "path rc = path rc'" "method' rc = method' rc'"
    "endpoint_name rc = endpoint_name rc'" "response_model rc = response_model rc'"
    "openapi_extra rc = openapi_extra rc'" "dependencies rc = dependencies rc'"
    by (simp_all add: read_fields_def)
  have g: "getattr v1 (endpoint_name rc') = getattr v2 (endpoint_name rc')"
    using Cons.prems(2,3) by (simp add: getattr_def split: option.splits)
  show ?case
  proof (cases "getattr v2 (endpoint_name rc')")
    case (Inl err)
    with g show ?thesis unfolding r by (simp add: e)
  next
    case (Inr ep)
    with g show ?thesis
      unfolding r
      by (simp add: e Let_def case_prod_beta Cons.IH [OF m Cons.prems(2,3)])
  qed
qed

lemma register_viewset_state:
  "snd (register_viewset s cls p t kw) =
     s\<lparr>routes := routes s @
          routes_for \<lparr>inst_id = constructed s, inst_class = cls\<rparr> p t (routes_config cls) kw,
        constructed := Suc (constructed s)\<rparr>"
  by (simp add: register_viewset_def construct_def register_routes_state)

lemma register_viewset_added:
  "added_routes s (snd (register_viewset s cls p t kw)) =
     routes_for \<lparr>inst_id = constructed s, inst_class = cls\<rparr> p t (routes_config cls) kw"
  by (simp add: added_routes_def register_viewset_state)

lemma register_viewset_outcome:
  "fst (register_viewset s cls p t kw) =
     (case find (\<lambda>rc. attrs cls (endpoint_name rc) = None) (routes_config cls) of
        None \<Rightarrow> Inr ()
      | Some rc \<Rightarrow> Inl (AttributeError (endpoint_name rc)))"
  by (simp add: register_viewset_def construct_def register_routes_outcome)

lemma mock_routes_for:
  "routes_for \<lparr>inst_id = n, inst_class = mock_viewset_with_routes\<rparr> p t
     (routes_config mock_viewset_with_routes) kw =
   [\<lparr>r_path = p @ ''/'', r_endpoint = BoundMethod n ''list_fn'', r_methods = [''GET''],
     r_tags = t, r_response_model = None, r_openapi_extra = None,
     r_dependencies = get_default (kw_dependencies kw) [], r_kwargs = kw_rest kw\<rparr>,
    \<lparr>r_path = p @ ''/'', r_endpoint = BoundMethod n ''create_fn'', r_methods = [''POST''],
     r_tags = t, r_response_model = None,
     r_openapi_extra = Some [(''requestBody'', ''schema'')],
     r_dependencies = [], r_kwargs = kw_rest kw\<rparr>]"
  by (simp add: mock_viewset_with_routes_def descriptor_def getattr_def)

lemma mock_added_routes:
  "added_routes s (snd (register_viewset s mock_viewset_with_routes p t kw)) =
   [\<lparr>r_path = p @ ''/'', r_endpoint = BoundMethod (constructed s) ''list_fn'',
     r_methods = [''GET''], r_tags = t, r_response_model = None, r_openapi_extra = None,
     r_dependencies = get_default (kw_dependencies kw) [], r_kwargs = kw_rest kw\<rparr>,
    \<lparr>r_path = p @ ''/'', r_endpoint = BoundMethod (constructed s) ''create_fn'',
     r_methods = [''POST''], r_tags = t, r_response_model = None,
     r_openapi_extra = Some [(''requestBody'', ''schema'')],
     r_dependencies = [], r_kwargs = kw_rest kw\<rparr>]"
  by (simp add: register_viewset_added mock_routes_for)

lemma mock_routes_config:
  "routes_config mock_viewset_with_routes =
     [descriptor ''/'' ''GET'' ''list'',
      (descriptor ''/'' ''POST'' ''create'')
        \<lparr>openapi_extra := Some [(''requestBody'', ''schema'')]\<rparr>]"
  by (simp add: mock_viewset_with_routes_def)

lemma routes_for_length_le: "length (routes_for v p t rcs kw) \<le> length rcs"
  by (simp add: routes_for_length length_takeWhile_le)

lemma mock_attrs:
  "attrs mock_viewset_with_routes = [''list'' \<mapsto> ''list_fn'', ''create'' \<mapsto> ''create_fn'']"
  by (simp add: mock_viewset_with_routes_def)

lemma getattr_cong:
  "inst_id v1 = inst_id v2 \<Longrightarrow> attrs (inst_class v1) = attrs (inst_class v2) \<Longrightarrow>
   getattr v1 n = getattr v2 n"
  by (simp add: getattr_def split: option.splits)

lemma routes_for_cong:
  "inst_id v1 = inst_id v2 \<Longrightarrow> attrs (inst_class v1) = attrs (inst_class v2) \<Longrightarrow>
   routes_for v1 p t rcs kw = routes_for v2 p t rcs kw"
  by (induction rcs arbitrary: kw) (auto simp: getattr_cong [of v1 v2] split: sum.splits)

lemma getattr_self_id: "getattr v n = Inr m \<Longrightarrow> self_id m = inst_id v"
  by (auto simp: getattr_def split: option.splits)

section \<open>Number of entries\<close>

text \<open>
  Claim C2. When every descriptor of the viewset names an attribute the instance has,
  \<^verbatim>\<open>register_viewset\<close> returns normally and the route table is the old one followed by
  exactly as many new entries as \<^verbatim>\<open>routes_config\<close> returned descriptors.
\<close>

theorem register_viewset_adds_one_entry_per_descriptor:
  assumes "\<forall>rc\<in>set (routes_config cls). attrs cls (endpoint_name rc) \<noteq> None"
  shows "fst (register_viewset s cls p t kw) = Inr () \<and>
         length (routes (snd (register_viewset s cls p t kw))) =
           length (routes s) + length (routes_config cls) \<and>
         take (length (routes s)) (routes (snd (register_viewset s cls p t kw))) = routes s"
proof -
  from assms have "find (\<lambda>rc. attrs cls (endpoint_name rc) = None) (routes_config cls) = None"
    by (intro find_none_resolved) simp
  then have "fst (register_viewset s cls p t kw) = Inr ()"
    by (simp add: register_viewset_outcome)
  moreover from assms have
    "length (routes_for \<lparr>inst_id = constructed s, inst_class = cls\<rparr> p t (routes_config cls) kw) =
       length (routes_config cls)"
    by (intro routes_for_length_all) simp
  ultimately show ?thesis
    by (simp add: register_viewset_state)
qed

theorem register_viewset_adds_one_entry_per_descriptor_witness:
  "attrs mock_viewset_with_routes ''list'' \<noteq> None \<and>
   attrs mock_viewset_with_routes ''create'' \<noteq> None \<and>
   fst (register_viewset new_router mock_viewset_with_routes ''/mock'' None no_kwargs) = Inr () \<and>
   length (routes (snd (register_viewset new_router mock_viewset_with_routes ''/mock'' None
     no_kwargs))) = 2"
  using register_viewset_adds_one_entry_per_descriptor
    [of mock_viewset_with_routes new_router "''/mock''" None no_kwargs]
  by (simp add: mock_viewset_with_routes_def descriptor_def new_router_def)

section \<open>Paths\<close>

text \<open>
  Claim C3. The path of every entry that \<^verbatim>\<open>register_viewset\<close> adds is the prefix followed
  by the \<^verbatim>\<open>path\<close> of its descriptor, character for character: nothing is inserted
  between them and nothing is trimmed or normalised. The entries added are matched with
  the descriptors in order; when every handler resolves, that is every descriptor.
\<close>

theorem registered_path_is_prefix_then_descriptor_path:
  "map r_path (added_routes s (snd (register_viewset s cls p t kw))) =
     map (\<lambda>rc. p @ path rc)
       (take (length (added_routes s (snd (register_viewset s cls p t kw)))) (routes_config cls)) \<and>
   ((\<forall>rc\<in>set (routes_config cls). attrs cls (endpoint_name rc) \<noteq> None) \<longrightarrow>
      map r_path (added_routes s (snd (register_viewset s cls p t kw))) =
        map (\<lambda>rc. p @ path rc) (routes_config cls))"
proof -
  let ?v = "\<lparr>inst_id = constructed s, inst_class = cls\<rparr>"
  let ?added = "routes_for ?v p t (routes_config cls) kw"
  have a: "added_routes s (snd (register_viewset s cls p t kw)) = ?added"
    by (rule register_viewset_added)
  have le: "length ?added \<le> length (routes_config cls)"
    by (rule routes_for_length_le)
  have m: "map r_path ?added = map (\<lambda>rc. p @ path rc) (take (length ?added) (routes_config cls))"
  proof (rule nth_equalityI)
    show "length (map r_path ?added) =
      length (map (\<lambda>rc. p @ path rc) (take (length ?added) (routes_config cls)))"
      using le by simp
  next
    fix i assume "i < length (map r_path ?added)"
    then have i: "i < length ?added" by simp
    with le routes_for_nth [OF i] show "map r_path ?added ! i =
      map (\<lambda>rc. p @ path rc) (take (length ?added) (routes_config cls)) ! i"
      by simp
  qed
  have "length ?added = length (routes_config cls)"
    if "\<forall>rc\<in>set (routes_config cls). attrs cls (endpoint_name rc) \<noteq> None"
    using that by (intro routes_for_length_all) simp
  with m show ?thesis unfolding a by auto
qed

theorem registered_path_is_prefix_then_descriptor_path_witness:
  "map r_path (added_routes new_router
     (snd (register_viewset new_router mock_viewset_with_routes ''/mock'' None no_kwargs))) =
   [''/mock/'', ''/mock/''] \<and>
   map (\<lambda>rc. ''/mock'' @ path rc) (routes_config mock_viewset_with_routes) =
   [''/mock/'', ''/mock/'']"
  using registered_path_is_prefix_then_descriptor_path
    [of new_router mock_viewset_with_routes "''/mock''" None no_kwargs]
  by (simp add: mock_added_routes mock_routes_config descriptor_def)

section \<open>OpenAPI extras\<close>

text \<open>
  Claim C5. The OpenAPI extras of every entry that \<^verbatim>\<open>register_viewset\<close> adds are the
  \<^verbatim>\<open>openapi_extra\<close> of its descriptor: the same mapping when the descriptor carries one,
  and absent (\<open>None\<close>) when it carries none.
\<close>

theorem openapi_extra_is_forwarded_unmodified:
  "map r_openapi_extra (added_routes s (snd (register_viewset s cls p t kw))) =
     map openapi_extra
       (take (length (added_routes s (snd (register_viewset s cls p t kw)))) (routes_config cls)) \<and>
   ((\<forall>rc\<in>set (routes_config cls). attrs cls (endpoint_name rc) \<noteq> None) \<longrightarrow>
      map r_openapi_extra (added_routes s (snd (register_viewset s cls p t kw))) =
        map openapi_extra (routes_config cls))"
proof -
  let ?v = "\<lparr>inst_id = constructed s, inst_class = cls\<rparr>"
  let ?added = "routes_for ?v p t (routes_config cls) kw"
  have a: "added_routes s (snd (register_viewset s cls p t kw)) = ?added"
    by (rule register_viewset_added)
  have le: "length ?added \<le> length (routes_config cls)"
    by (rule routes_for_length_le)
  have m: "map r_openapi_extra ?added =
    map openapi_extra (take (length ?added) (routes_config cls))"
  proof (rule nth_equalityI)
    show "length (map r_openapi_extra ?added) =
      length (map openapi_extra (take (length ?added) (routes_config cls)))"
      using le by simp
  next
    fix i assume "i < length (map r_openapi_extra ?added)"
    then have i: "i < length ?added" by simp
    with le routes_for_nth [OF i] show "map r_openapi_extra ?added ! i =
      map openapi_extra (take (length ?added) (routes_config cls)) ! i"
      by simp
  qed
  have "length ?added = length (routes_config cls)"
    if "\<forall>rc\<in>set (routes_config cls). attrs cls (endpoint_name rc) \<noteq> None"
    using that by (intro routes_for_length_all) simp
  with m show ?thesis unfolding a by auto
qed

theorem openapi_extra_is_forwarded_unmodified_witness:
  "map r_openapi_extra (added_routes new_router
     (snd (register_viewset new_router mock_viewset_with_routes ''/mock'' None no_kwargs))) =
   [None, Some [(''requestBody'', ''schema'')]] \<and>
   map openapi_extra (routes_config mock_viewset_with_routes) =
   [None, Some [(''requestBody'', ''schema'')]]"
  using openapi_extra_is_forwarded_unmodified
    [of new_router mock_viewset_with_routes "''/mock''" None no_kwargs]
  by (simp add: mock_added_routes mock_routes_config descriptor_def)

section \<open>Order of the entries\<close>

text \<open>
  Claim C6. \<^verbatim>\<open>register_viewset\<close> works through the descriptors in the order of the list
  that \<^verbatim>\<open>routes_config\<close> returns: the route table afterwards is the old table followed by
  the added entries, and the added entry at position \<open>i\<close> is the one of the descriptor
  at position \<open>i\<close> (its path, its method, its handler). When every handler resolves there
  is one added entry for each descriptor.
\<close>

theorem routes_are_added_in_descriptor_order:
  "routes (snd (register_viewset s cls p t kw)) =
     routes s @ added_routes s (snd (register_viewset s cls p t kw)) \<and>
   length (added_routes s (snd (register_viewset s cls p t kw))) \<le> length (routes_config cls) \<and>
   (\<forall>i < length (added_routes s (snd (register_viewset s cls p t kw))).
      r_path (added_routes s (snd (register_viewset s cls p t kw)) ! i) =
        p @ path (routes_config cls ! i) \<and>
      r_methods (added_routes s (snd (register_viewset s cls p t kw)) ! i) =
        [method' (routes_config cls ! i)] \<and>
      getattr \<lparr>inst_id = constructed s, inst_class = cls\<rparr>
          (endpoint_name (routes_config cls ! i)) =
        Inr (r_endpoint (added_routes s (snd (register_viewset s cls p t kw)) ! i))) \<and>
   ((\<forall>rc\<in>set (routes_config cls). attrs cls (endpoint_name rc) \<noteq> None) \<longrightarrow>
      length (added_routes s (snd (register_viewset s cls p t kw))) = length (routes_config cls))"
proof -
  let ?v = "\<lparr>inst_id = constructed s, inst_class = cls\<rparr>"
  let ?added = "routes_for ?v p t (routes_config cls) kw"
  have a: "added_routes s (snd (register_viewset s cls p t kw)) = ?added"
    by (rule register_viewset_added)
  have r: "routes (snd (register_viewset s cls p t kw)) = routes s @ ?added"
    by (simp add: register_viewset_state)
  have le: "length ?added \<le> length (routes_config cls)"
    by (rule routes_for_length_le)
  have n: "r_path (?added ! i) = p @ path (routes_config cls ! i) \<and>
      r_methods (?added ! i) = [method' (routes_config cls ! i)] \<and>
      getattr ?v (endpoint_name (routes_config cls ! i)) = Inr (r_endpoint (?added ! i))"
    if "i < length ?added" for i
    using routes_for_nth [OF that] by simp
  have "length ?added = length (routes_config cls)"
    if "\<forall>rc\<in>set (routes_config cls). attrs cls (endpoint_name rc) \<noteq> None"
    using that by (intro routes_for_length_all) simp
  with r le n show ?thesis unfolding a by blast
qed

theorem routes_are_added_in_descriptor_order_witness:
  "map (\<lambda>r. (r_methods r, r_path r, r_endpoint r))
     (added_routes new_router
        (snd (register_viewset new_router mock_viewset_with_routes ''/mock'' None no_kwargs))) =
   [([''GET''], ''/mock/'', BoundMethod 0 ''list_fn''),
    ([''POST''], ''/mock/'', BoundMethod 0 ''create_fn'')] \<and>
   map method' (routes_config mock_viewset_with_routes) = [''GET'', ''POST'']"
  using routes_are_added_in_descriptor_order
    [of new_router mock_viewset_with_routes "''/mock''" None no_kwargs]
  by (simp add: mock_added_routes mock_routes_config descriptor_def new_router_def)

section \<open>A missing handler\<close>

text \<open>
  Claim C4. When a descriptor names an attribute the instance does not have (and the
  descriptors before it name attributes it has), \<^verbatim>\<open>register_viewset\<close> ends with the
  \<^verbatim>\<open>AttributeError\<close> that \<^verbatim>\<open>getattr\<close> raised for that name, as it is. The entries added
  for the earlier descriptors stay in the route table: the old table is still its
  beginning, one entry follows for each earlier descriptor, and the state is the one a
  registration of the earlier descriptors alone would have left.
\<close>

theorem missing_handler_fails_and_keeps_earlier_routes:
  assumes "routes_config cls = pre @ rc # post"
    and "\<forall>x\<in>set pre. attrs cls (endpoint_name x) \<noteq> None"
    and "attrs cls (endpoint_name rc) = None"
  shows "getattr \<lparr>inst_id = constructed s, inst_class = cls\<rparr> (endpoint_name rc) =
           Inl (AttributeError (endpoint_name rc)) \<and>
         fst (register_viewset s cls p t kw) = Inl (AttributeError (endpoint_name rc)) \<and>
         take (length (routes s)) (routes (snd (register_viewset s cls p t kw))) = routes s \<and>
         length (routes (snd (register_viewset s cls p t kw))) = length (routes s) + length pre \<and>
         snd (register_viewset s cls p t kw) =
           snd (register_viewset s (cls\<lparr>routes_config := pre\<rparr>) p t kw)"
proof -
  let ?v = "\<lparr>inst_id = constructed s, inst_class = cls\<rparr>"
  let ?w = "\<lparr>inst_id = constructed s, inst_class = cls\<lparr>routes_config := pre\<rparr>\<rparr>"
  have g: "getattr ?v (endpoint_name rc) = Inl (AttributeError (endpoint_name rc))"
    using assms(3) by (simp add: getattr_def)
  have "find (\<lambda>rc. attrs cls (endpoint_name rc) = None) (pre @ rc # post) = Some rc"
    using assms(2,3) by (intro find_first_unresolved) simp_all
  then have f: "fst (register_viewset s cls p t kw) = Inl (AttributeError (endpoint_name rc))"
    by (simp add: register_viewset_outcome assms(1))
  have st: "routes_for ?v p t (pre @ rc # post) kw = routes_for ?v p t pre kw"
    using assms(2,3) by (intro routes_for_stops) simp_all
  have len: "length (routes_for ?v p t pre kw) = length pre"
    using assms(2) by (intro routes_for_length_all) simp
  have same: "routes_for ?w p t pre kw = routes_for ?v p t pre kw"
    by (rule routes_for_cong) simp_all
  from g f st len same show ?thesis
    by (simp add: register_viewset_state assms(1))
qed

theorem missing_handler_fails_and_keeps_earlier_routes_witness:
  "routes_config viewset_with_missing_handler =
     routes_config mock_viewset_with_routes @ [descriptor ''/{id}'' ''DELETE'' ''destroy''] \<and>
   attrs viewset_with_missing_handler ''list'' \<noteq> None \<and>
   attrs viewset_with_missing_handler ''create'' \<noteq> None \<and>
   attrs viewset_with_missing_handler ''destroy'' = None \<and>
   fst (register_viewset new_router viewset_with_missing_handler ''/mock'' None no_kwargs) =
     Inl (AttributeError ''destroy'') \<and>
   length (routes (snd (register_viewset new_router viewset_with_missing_handler ''/mock'' None
     no_kwargs))) = 2"
proof -
  have c: "routes_config viewset_with_missing_handler =
      routes_config mock_viewset_with_routes @ descriptor ''/{id}'' ''DELETE'' ''destroy'' # []"
    by (simp add: viewset_with_missing_handler_def)
  have a: "attrs viewset_with_missing_handler =
      [''list'' \<mapsto> ''list_fn'', ''create'' \<mapsto> ''create_fn'']"
    by (simp add: viewset_with_missing_handler_def mock_attrs)
  have r: "\<forall>x\<in>set (routes_config mock_viewset_with_routes).
      attrs viewset_with_missing_handler (endpoint_name x) \<noteq> None"
    by (simp add: a mock_routes_config descriptor_def)
  have n: "attrs viewset_with_missing_handler
      (endpoint_name (descriptor ''/{id}'' ''DELETE'' ''destroy'')) = None"
    by (simp add: a descriptor_def)
  note th = missing_handler_fails_and_keeps_earlier_routes
    [OF c r n, of new_router "''/mock''" None no_kwargs]
  from th [THEN conjunct2, THEN conjunct1]
    th [THEN conjunct2, THEN conjunct2, THEN conjunct2, THEN conjunct1]
  show ?thesis
    by (simp add: a c mock_routes_config descriptor_def new_router_def)
qed

section \<open>One instance for all routes\<close>

text \<open>
  Claim C9. One call of \<^verbatim>\<open>register_viewset\<close> constructs exactly one viewset instance,
  whatever the number of descriptors and whether or not the loop fails, and the endpoint
  of every entry it adds is the attribute looked up on that one instance.
\<close>

theorem one_instance_serves_all_routes:
  "constructed (snd (register_viewset s cls p t kw)) = Suc (constructed s) \<and>
   (\<forall>r\<in>set (added_routes s (snd (register_viewset s cls p t kw))).
      self_id (r_endpoint r) = constructed s) \<and>
   (\<forall>i < length (added_routes s (snd (register_viewset s cls p t kw))).
      getattr \<lparr>inst_id = constructed s, inst_class = cls\<rparr>
          (endpoint_name (routes_config cls ! i)) =
        Inr (r_endpoint (added_routes s (snd (register_viewset s cls p t kw)) ! i)))"
proof -
  let ?v = "\<lparr>inst_id = constructed s, inst_class = cls\<rparr>"
  let ?added = "routes_for ?v p t (routes_config cls) kw"
  have a: "added_routes s (snd (register_viewset s cls p t kw)) = ?added"
    by (rule register_viewset_added)
  have c: "constructed (snd (register_viewset s cls p t kw)) = Suc (constructed s)"
    by (simp add: register_viewset_state)
  have n: "getattr ?v (endpoint_name (routes_config cls ! i)) = Inr (r_endpoint (?added ! i))"
    if "i < length ?added" for i
    using routes_for_nth [OF that] by simp
  have "self_id (r_endpoint r) = constructed s" if "r \<in> set ?added" for r
  proof -
    from that obtain i where i: "i < length ?added" and r: "r = ?added ! i"
      by (auto simp: in_set_conv_nth)
    from getattr_self_id [OF n [OF i]] r show ?thesis by simp
  qed
  with c n show ?thesis unfolding a by blast
qed

theorem one_instance_serves_all_routes_witness:
  "constructed (snd (register_viewset new_router mock_viewset_with_routes ''/mock'' None
     no_kwargs)) = 1 \<and>
   map r_endpoint (added_routes new_router
     (snd (register_viewset new_router mock_viewset_with_routes ''/mock'' None no_kwargs))) =
   [BoundMethod 0 ''list_fn'', BoundMethod 0 ''create_fn'']"
  using one_instance_serves_all_routes
    [of new_router mock_viewset_with_routes "''/mock''" None no_kwargs]
  by (simp add: mock_added_routes new_router_def)

section \<open>Descriptor fields that are not read\<close>

text \<open>
  Claim C10. \<^verbatim>\<open>register_viewset\<close> reads \<^verbatim>\<open>path\<close>, \<^verbatim>\<open>method\<close>, \<^verbatim>\<open>endpoint_name\<close>,
  \<^verbatim>\<open>response_model\<close>, \<^verbatim>\<open>openapi_extra\<close> and \<^verbatim>\<open>dependencies\<close> of a descriptor and nothing
  else: two viewsets with the same attributes whose descriptors agree on these six
  fields give the same outcome and the same state, whatever their \<^verbatim>\<open>tags\<close>, \<^verbatim>\<open>name\<close>,
  \<^verbatim>\<open>summary\<close>, \<^verbatim>\<open>description\<close>, \<^verbatim>\<open>deprecated\<close>, \<^verbatim>\<open>include_in_schema\<close> and \<^verbatim>\<open>kwargs\<close>
  are. Every added entry carries the \<^verbatim>\<open>tags\<close> argument of the call.
\<close>

theorem unread_descriptor_fields_are_ignored:
  assumes "map read_fields (routes_config cls1) = map read_fields (routes_config cls2)"
    and "attrs cls1 = attrs cls2"
  shows "register_viewset s cls1 p t kw = register_viewset s cls2 p t kw \<and>
         (\<forall>r\<in>set (added_routes s (snd (register_viewset s cls1 p t kw))). r_tags r = t)"
proof -
  let ?v = "\<lparr>inst_id = constructed s, inst_class = cls1\<rparr>"
  let ?added = "routes_for ?v p t (routes_config cls1) kw"
  have "register_routes \<lparr>inst_id = constructed s, inst_class = cls1\<rparr> p t (routes_config cls1) kw
      (s\<lparr>constructed := Suc (constructed s)\<rparr>) =
    register_routes \<lparr>inst_id = constructed s, inst_class = cls2\<rparr> p t (routes_config cls2) kw
      (s\<lparr>constructed := Suc (constructed s)\<rparr>)"
    using assms by (intro register_routes_read_fields) simp_all
  then have "register_viewset s cls1 p t kw = register_viewset s cls2 p t kw"
    by (simp add: register_viewset_def construct_def)
  moreover have "\<forall>r\<in>set (added_routes s (snd (register_viewset s cls1 p t kw))). r_tags r = t"
    unfolding register_viewset_added
  proof
    fix r assume "r \<in> set ?added"
    then obtain i where i: "i < length ?added" and r: "r = ?added ! i"
      by (auto simp: in_set_conv_nth)
    from routes_for_nth [OF i] r show "r_tags r = t" by simp
  qed
  ultimately show ?thesis
    by (rule conjI)
qed


theorem unread_descriptor_fields_are_ignored_witness:
  "map tags (routes_config viewset_with_extra_fields) = [Some [''own''], Some [''own'']] \<and>
   map tags (routes_config mock_viewset_with_routes) = [None, None] \<and>
   register_viewset new_router viewset_with_extra_fields ''/mock'' (Some [''items'']) no_kwargs =
   register_viewset new_router mock_viewset_with_routes ''/mock'' (Some [''items'']) no_kwargs \<and>
   map r_tags (added_routes new_router
     (snd (register_viewset new_router viewset_with_extra_fields ''/mock'' (Some [''items''])
        no_kwargs))) = [Some [''items''], Some [''items'']]"
proof -
  have m: "map read_fields (routes_config viewset_with_extra_fields) =
           map read_fields (routes_config mock_viewset_with_routes)"
    by (simp add: viewset_with_extra_fields_def read_fields_def)
  have a: "attrs viewset_with_extra_fields = attrs mock_viewset_with_routes"
    by (simp add: viewset_with_extra_fields_def)
  have e: "register_viewset new_router viewset_with_extra_fields ''/mock'' (Some [''items''])
      no_kwargs =
    register_viewset new_router mock_viewset_with_routes ''/mock'' (Some [''items'']) no_kwargs"
    using unread_descriptor_fields_are_ignored
      [OF m a, of new_router "''/mock''" "Some [''items'']" no_kwargs]
    by simp
  show ?thesis
    unfolding e
    by (simp add: e mock_added_routes viewset_with_extra_fields_def mock_routes_config
        descriptor_def)
qed

section \<open>Dependencies\<close>

text \<open>
  Claim C8. \<^verbatim>\<open>kwargs.pop("dependencies", [])\<close> stands inside the loop, so the list the
  caller supplied is there in the first iteration only. For a viewset with two or more
  descriptors, all resolving, and a non-empty list from the caller: the first added
  entry has the descriptor's dependencies followed by the caller's, and every later
  entry has its descriptor's dependencies alone.
\<close>

theorem caller_dependencies_reach_the_first_route_only:
  assumes "\<forall>rc\<in>set (routes_config cls). attrs cls (endpoint_name rc) \<noteq> None"
    and "2 \<le> length (routes_config cls)"
    and "kw_dependencies kw = Some ds"
    and "ds \<noteq> []"
  shows "length (added_routes s (snd (register_viewset s cls p t kw))) =
           length (routes_config cls) \<and>
         r_dependencies (added_routes s (snd (register_viewset s cls p t kw)) ! 0) =
           get_default (dependencies (routes_config cls ! 0)) [] @ ds \<and>
         (\<forall>i. 0 < i \<and> i < length (routes_config cls) \<longrightarrow>
            r_dependencies (added_routes s (snd (register_viewset s cls p t kw)) ! i) =
              get_default (dependencies (routes_config cls ! i)) [] \<and>
            r_dependencies (added_routes s (snd (register_viewset s cls p t kw)) ! i) \<noteq>
              get_default (dependencies (routes_config cls ! i)) [] @ ds)"
proof -
  let ?v = "\<lparr>inst_id = constructed s, inst_class = cls\<rparr>"
  let ?added = "routes_for ?v p t (routes_config cls) kw"
  have a: "added_routes s (snd (register_viewset s cls p t kw)) = ?added"
    by (rule register_viewset_added)
  have len: "length ?added = length (routes_config cls)"
    using assms(1) by (intro routes_for_length_all) simp
  have first: "r_dependencies (?added ! 0) =
      get_default (dependencies (routes_config cls ! 0)) [] @ ds"
  proof -
    from len assms(2) have "0 < length ?added" by linarith
    from routes_for_nth [OF this] assms(3) show ?thesis by simp
  qed
  have later: "r_dependencies (?added ! i) = get_default (dependencies (routes_config cls ! i)) []"
    if "0 < i" "i < length (routes_config cls)" for i
  proof -
    from that len have "i < length ?added" by linarith
    from routes_for_nth [OF this] that(1) show ?thesis by simp
  qed
  from len first later assms(4) show ?thesis unfolding a by simp
qed

theorem caller_dependencies_reach_the_first_route_only_witness:
  "attrs mock_viewset_with_routes ''list'' \<noteq> None \<and>
   attrs mock_viewset_with_routes ''create'' \<noteq> None \<and>
   length (routes_config mock_viewset_with_routes) = 2 \<and>
   kw_dependencies kwargs_with_dependencies = Some [''auth''] \<and>
   map r_dependencies (added_routes new_router
     (snd (register_viewset new_router mock_viewset_with_routes ''/mock'' None
        kwargs_with_dependencies))) = [[''auth''], []]"
  using caller_dependencies_reach_the_first_route_only
    [of mock_viewset_with_routes kwargs_with_dependencies "[''auth'']" new_router "''/mock''" None]
  by (simp add: mock_added_routes mock_routes_config mock_attrs descriptor_def
      kwargs_with_dependencies_def)

text \<open>
  Claim C1. The claim asks for the descriptor's dependencies followed by the caller's
  on every registered route. On the viewset of the spec's example, registered with
  \<^verbatim>\<open>dependencies=[auth]\<close>, the call succeeds and that would be \<open>[auth]\<close> on both routes;
  the second route has none.
\<close>

theorem second_route_lacks_caller_dependencies:
  "fst (register_viewset new_router mock_viewset_with_routes ''/mock'' None
     kwargs_with_dependencies) = Inr () \<and>
   map (\<lambda>rc. get_default (dependencies rc) [] @
          get_default (kw_dependencies kwargs_with_dependencies) [])
     (routes_config mock_viewset_with_routes) = [[''auth''], [''auth'']] \<and>
   map r_dependencies (added_routes new_router
     (snd (register_viewset new_router mock_viewset_with_routes ''/mock'' None
        kwargs_with_dependencies))) = [[''auth''], []]"
  by (simp add: mock_added_routes register_viewset_outcome mock_routes_config mock_attrs
      descriptor_def kwargs_with_dependencies_def)

section \<open>Parameters of the dependency-injection helpers\<close>

text \<open>
  Claim C7. For every provider, the parameter list of the callable that
  \<^verbatim>\<open>db_dep_injector\<close> produces holds a parameter \<^verbatim>\<open>request\<close> that takes the current
  request and a parameter \<^verbatim>\<open>db\<close> that declares a nested dependency on the provider;
  likewise \<^verbatim>\<open>auth_dep_injector\<close>, with \<^verbatim>\<open>user\<close> in the place of \<^verbatim>\<open>db\<close>.
\<close>

theorem injectors_declare_request_and_nested_dependency:
  "\<lparr>param_name = ''request'', param_kind = CurrentRequest\<rparr> \<in> set (db_dep_injector session) \<and>
   \<lparr>param_name = ''db'', param_kind = Depends session\<rparr> \<in> set (db_dep_injector session) \<and>
   \<lparr>param_name = ''request'', param_kind = CurrentRequest\<rparr> \<in> set (auth_dep_injector user) \<and>
   \<lparr>param_name = ''user'', param_kind = Depends user\<rparr> \<in> set (auth_dep_injector user)"
  by (simp add: db_dep_injector_def auth_dep_injector_def)

end
